theory Spec2Isabelle
  imports Main
begin

section \<open>Bridged IRC client (src/lib/irc/BridgedClient.js)\<close>

text \<open>
  A shallow embedding of the per-user IRC session of the bridge. JavaScript strings
  are modelled as \<open>string\<close>; the character classes of the source only name ASCII
  characters, so every other code unit falls into the complement of each class.
  Log output, metadata sent to the event broker and events emitted to the rest of
  the bridge are not part of the modelled state.
\<close>

subsection \<open>Errors and decimal rendering\<close>

text \<open>
  \<open>new Error(msg)\<close> is \<open>Error msg\<close>; a property read on \<open>null\<close> or \<open>undefined\<close>
  is \<open>TypeError\<close>.
\<close>

datatype error = Error string | TypeError

definition digitChar :: "nat \<Rightarrow> char" where
  "digitChar d = ''0123456789'' ! d"

fun string_of_nat :: "nat \<Rightarrow> string" where
  "string_of_nat n =
     (if n < 10 then [digitChar n] else string_of_nat (n div 10) @ [digitChar (n mod 10)])"

declare string_of_nat.simps [simp del]

definition string_of_int :: "int \<Rightarrow> string" where
  "string_of_int i = (if i < 0 then CHR ''-'' # string_of_nat (nat (- i)) else string_of_nat (nat i))"

subsection \<open>Nick validation\<close>

text \<open>
  \<open>BridgedClient.illegalCharactersRegex\<close> is the complement of the class
  \<open>A-Z a-z 0-9 ] [ ^ \ { } - ` _ |\<close>; \<open>legalChar\<close> is that class.
\<close>

definition isLetter :: "char \<Rightarrow> bool" where
  "isLetter c = (let n = (of_char c :: nat) in (65 \<le> n \<and> n \<le> 90) \<or> (97 \<le> n \<and> n \<le> 122))"

definition isDigit :: "char \<Rightarrow> bool" where
  "isDigit c = (let n = (of_char c :: nat) in 48 \<le> n \<and> n \<le> 57)"

definition legalChar :: "char \<Rightarrow> bool" where
  "legalChar c = (isLetter c \<or> isDigit c \<or>
     (of_char c :: nat) \<in> {93, 91, 94, 92, 123, 125, 45, 96, 95, 124})"

text \<open>\<open>/^[A-Za-z]/.test(n)\<close>\<close>

definition startsWithLetter :: "string \<Rightarrow> bool" where
  "startsWithLetter n = (case n of [] \<Rightarrow> False | c # _ \<Rightarrow> isLetter c)"

text \<open>
  The part of the line-level client that the session reads: the keys of \<open>chans\<close>,
  \<open>supported.nicklength\<close> when \<open>supported\<close> is set and the field is a number
  (\<open>None\<close> otherwise; the number is taken to be an integer), and the client's
  own \<open>nick\<close>.
\<close>

record raw_client =
  chans :: "string list"
  nicklength :: "int option"
  clientNick :: string

definition quoted :: "string \<Rightarrow> string" where
  "quoted s = [CHR 0x27] @ s @ [CHR 0x27]"

text \<open>
  The limit of the length check: \<open>supported.nicklength\<close> when it is a number, and
  the default of RFC 1459 otherwise.
\<close>

definition maxNickLen :: "raw_client \<Rightarrow> int" where
  "maxNickLen c = (case nicklength c of Some l \<Rightarrow> l | None \<Rightarrow> 9)"

text \<open>
  The last stage of \<open>_getValidNick\<close>: the length check, made only when
  \<open>this.unsafeClient\<close> is set. \<open>n.substr(0, maxNickLen)\<close> is
  \<open>take (nat maxNickLen) n\<close>: a negative length yields the empty string in both.
\<close>

definition checkNickLength :: "raw_client option \<Rightarrow> string \<Rightarrow> string \<Rightarrow> bool \<Rightarrow> error + string" where
  "checkNickLength cli orig n throwOnInvalid =
     (case cli of
        None \<Rightarrow> Inr n
      | Some c \<Rightarrow>
          if int (length n) > maxNickLen c then
            if throwOnInvalid then
              Inl (Error (''Nick '' @ quoted orig @ '' is too long. (Max: '' @
                          string_of_int (maxNickLen c) @ '')''))
            else Inr (take (nat (maxNickLen c)) n)
          else Inr n)"

text \<open>\<open>_getValidNick(nick, throwOnInvalid)\<close>, with \<open>this.unsafeClient\<close> as the first argument.\<close>

definition getValidNick :: "raw_client option \<Rightarrow> string \<Rightarrow> bool \<Rightarrow> error + string" where
  "getValidNick cli orig throwOnInvalid =
     (let n = filter legalChar orig in
      if throwOnInvalid \<and> n \<noteq> orig then
        Inl (Error (''Nick '' @ quoted orig @ '' contains illegal characters.''))
      else if \<not> startsWithLetter n then
        if throwOnInvalid then
          Inl (Error (''Nick '' @ quoted orig @ '' must start with a letter.''))
        else checkNickLength cli orig (''M'' @ n) throwOnInvalid
      else checkNickLength cli orig n throwOnInvalid)"

text \<open>The shape \<open>^[A-Za-z][A-Za-z0-9\]\[\^\\\{\}\-`_|]*$\<close> of a valid nick.\<close>

definition validNickFormat :: "string \<Rightarrow> bool" where
  "validNickFormat n = (case n of [] \<Rightarrow> False | c # cs \<Rightarrow> isLetter c \<and> list_all legalChar cs)"

text \<open>
  The nick after the first two stages when nothing is thrown: illegal characters
  stripped, and \<open>M\<close> put in front unless a letter comes first.
\<close>

definition prefixed :: "string \<Rightarrow> string" where
  "prefixed orig = (let n = filter legalChar orig in if startsWithLetter n then n else ''M'' @ n)"

text \<open>There is no live client, or its length limit is at least one character.\<close>

definition positiveNickLen :: "raw_client option \<Rightarrow> bool" where
  "positiveNickLen cli = (case cli of None \<Rightarrow> True | Some c \<Rightarrow> 1 \<le> maxNickLen c)"

subsection \<open>Session state\<close>

text \<open>
  The server descriptor is injected; only the accessors the session calls are kept.
\<close>

record irc_server =
  domain :: string
  getIdleTimeout :: int
  getExpiryTimeSeconds :: int
  getUserModes :: string
  shouldSyncMembershipToIrc :: "string \<Rightarrow> bool"
  isExcludedChannel :: "string \<Rightarrow> bool"

text \<open>
  Modelled from the spec: the connection instance (ConnectionInstance.js is not among
  the sources). Its \<open>disconnect(reason)\<close> is idempotent and moves the instance to
  \<open>dead = true\<close>; the reasons it was given are kept in \<open>disconnectReasons\<close>.
\<close>

record conn_inst =
  dead :: bool
  disconnectReasons :: "string list"

definition inst_disconnect :: "conn_inst \<Rightarrow> string \<Rightarrow> conn_inst" where
  "inst_disconnect i reason =
     (if dead i then i else i\<lparr>dead := True, disconnectReasons := disconnectReasons i @ [reason]\<rparr>)"

text \<open>What the session hands to the line-level client for sending.\<close>

datatype irc_command =
    NICK string
  | JOIN string
  | PART string string
  | KICK string string string
  | TOPIC string string
  | WHOIS string
  | NAMES string
  | SAY string string
  | NOTICE string string
  | ACTION string string
  | MODE string

text \<open>\<open>new IrcRoom(this.server, channel)\<close>; the server is the session's own.\<close>

datatype room = IrcRoom string

text \<open>
  The result of \<open>getNicks\<close>, cached by \<open>getOperators\<close>: the channel, the nicks
  with their prefix strings, and the operator nicks.
\<close>

record nicks_info =
  info_channel :: string
  info_names :: "(string \<times> string) list"
  info_operatorNicks :: "string list"

text \<open>
  \<open>wire\<close> is the sequence of commands handed to the line-level client so far.
  \<open>connectDeferPending\<close> is \<open>this._connectDefer.promise.isPending()\<close>, and
  \<open>idleTimeoutHandle\<close> is the armed idle timer with the timeout its callback
  captured (\<open>None\<close>: no timer armed).
\<close>

record session =
  server :: irc_server
  nick :: string
  isBot :: bool
  lastActionTs :: int
  inst :: "conn_inst option"
  unsafeClient :: "raw_client option"
  instCreationFailed :: bool
  explicitDisconnect :: bool
  disconnectReason :: "string option"
  chanList :: "string list"
  connectDeferPending :: bool
  idleTimeoutHandle :: "int option"
  cachedOperatorNicksInfo :: "string \<rightharpoonup> nicks_info"
  wire :: "irc_command list"

text \<open>
  The state of a returned promise once the call and the callbacks of promises that
  are already settled have run: settled, or waiting for an upstream reply.
  \<open>Thrown\<close> is an exception that escapes the call itself.
\<close>

datatype waiting = OnConnect | OnJoin | OnPart | OnNick | OnWhois | OnNames | OnDisconnect

datatype 'a outcome = Resolved 'a | Rejected error | Thrown error | Waiting waiting

definition send :: "irc_command \<Rightarrow> session \<Rightarrow> session" where
  "send c s = s\<lparr>wire := wire s @ [c]\<rparr>"

text \<open>
  The constructor: the nick is coerced before any client exists, so without a length
  check. \<open>desired\<close> is \<open>ircClientConfig.getDesiredNick() || server.getNick(...)\<close>.
\<close>

definition BridgedClient :: "irc_server \<Rightarrow> string \<Rightarrow> bool \<Rightarrow> int \<Rightarrow> session" where
  "BridgedClient srv desired bot_flag now =
     \<lparr>server = srv,
      nick = (case getValidNick None desired False of Inr n \<Rightarrow> n | Inl _ \<Rightarrow> desired),
      isBot = bot_flag, lastActionTs = now, inst = None, unsafeClient = None,
      instCreationFailed = False, explicitDisconnect = False, disconnectReason = None,
      chanList = [], connectDeferPending = True, idleTimeoutHandle = None,
      cachedOperatorNicksInfo = Map.empty, wire = []\<rparr>"

definition isDead :: "session \<Rightarrow> bool" where
  "isDead s = (instCreationFailed s \<or> (case inst s of None \<Rightarrow> False | Some i \<Rightarrow> dead i))"

subsection \<open>Disconnect, kill and the idle timer\<close>

definition disconnect :: "session \<Rightarrow> string \<Rightarrow> session \<times> unit outcome" where
  "disconnect s reason =
     (let s1 = s\<lparr>explicitDisconnect := True\<rparr> in
      case inst s1 of
        None \<Rightarrow> (s1, Resolved ())
      | Some i \<Rightarrow>
          if dead i then (s1, Resolved ())
          else (s1\<lparr>inst := Some (inst_disconnect i reason)\<rparr>, Waiting OnDisconnect))"

text \<open>\<open>reason || "Bridged client killed"\<close>: an absent or empty reason is replaced.\<close>

definition orDefault :: "string option \<Rightarrow> string \<Rightarrow> string" where
  "orDefault r d = (case r of None \<Rightarrow> d | Some x \<Rightarrow> if x = [] then d else x)"

definition kill :: "session \<Rightarrow> string option \<Rightarrow> session \<times> unit outcome" where
  "kill s reason = disconnect (s\<lparr>unsafeClient := None\<rparr>) (orDefault reason ''Bridged client killed'')"

text \<open>\<open>_keepAlive\<close>; \<open>now\<close> is \<open>Date.now()\<close>. Arming replaces any timer armed before.\<close>

definition keepAlive :: "session \<Rightarrow> int \<Rightarrow> session" where
  "keepAlive s now =
     (let s1 = s\<lparr>lastActionTs := now\<rparr>;
          idleTimeout = getIdleTimeout (server s1) in
      if idleTimeout > 0 then s1\<lparr>idleTimeoutHandle := Some idleTimeout\<rparr> else s1)"

text \<open>The callback given to \<open>setTimeout\<close> in \<open>_keepAlive\<close>, with the \<open>idleTimeout\<close> it captured.\<close>

definition idleCallback :: "int \<Rightarrow> session \<Rightarrow> session" where
  "idleCallback idleTimeout s =
     (if shouldSyncMembershipToIrc (server s) ''initial'' then s
      else if isBot s then s
      else fst (disconnect s (''Idle timeout reached: '' @ string_of_int idleTimeout @ ''s'')))"

text \<open>The armed idle timer expires: it is no longer armed, and its callback runs.\<close>

definition idleTimerExpires :: "session \<Rightarrow> session" where
  "idleTimerExpires s =
     (case idleTimeoutHandle s of
        None \<Rightarrow> s
      | Some idleTimeout \<Rightarrow> idleCallback idleTimeout (s\<lparr>idleTimeoutHandle := None\<rparr>))"

text \<open>
  The connection reports a disconnect: the handler installed by
  \<open>_onConnectionCreated\<close> records the reason, takes a ban for an explicit
  disconnect and clears the idle timer. Modelled from the spec: the instance that
  reports it is dead from then on.
\<close>

definition onDisconnect :: "session \<Rightarrow> string \<Rightarrow> session" where
  "onDisconnect s reason =
     s\<lparr>inst := map_option (\<lambda>i. i\<lparr>dead := True\<rparr>) (inst s),
       disconnectReason := Some reason,
       explicitDisconnect := (explicitDisconnect s \<or> reason = ''banned''),
       idleTimeoutHandle := None\<rparr>"

subsection \<open>Connecting\<close>

text \<open>
  The tail of \<open>connect\<close>, once \<open>ConnectionInstance.create\<close> has resolved with a live
  instance whose client is \<open>cli\<close>: the handles are stored, the nick is taken from
  the client, the connect-ready signal resolves, the idle timer is armed and the
  user modes are set for a session that is not the bot.
\<close>

definition connected :: "session \<Rightarrow> raw_client \<Rightarrow> int \<Rightarrow> session" where
  "connected s cli now =
     (let s1 = s\<lparr>inst := Some \<lparr>dead = False, disconnectReasons = []\<rparr>,
                 unsafeClient := Some cli, nick := clientNick cli,
                 connectDeferPending := False\<rparr>;
          s2 = keepAlive s1 now;
          userModes = getUserModes (server s2) in
      if length userModes > 0 \<and> \<not> isBot s2 then send (MODE (''+'' @ userModes)) s2 else s2)"

text \<open>The \<open>catch\<close> branch of \<open>connect\<close>.\<close>

definition connectFailed :: "session \<Rightarrow> session" where
  "connectFailed s = s\<lparr>instCreationFailed := True\<rparr>"

subsection \<open>Channel tracking\<close>

definition inChannel :: "session \<Rightarrow> string \<Rightarrow> bool" where
  "inChannel s channel = (channel \<in> set (chanList s))"

text \<open>\<open>indexOf\<close> finds the first occurrence and \<open>splice(i, 1)\<close> removes it.\<close>

definition removeChannel :: "string \<Rightarrow> session \<Rightarrow> session" where
  "removeChannel channel s =
     (if channel \<notin> set (chanList s) then s else s\<lparr>chanList := remove1 channel (chanList s)\<rparr>)"

definition addChannel :: "string \<Rightarrow> session \<Rightarrow> session" where
  "addChannel channel s =
     (if channel \<in> set (chanList s) then s else s\<lparr>chanList := chanList s @ [channel]\<rparr>)"

text \<open>\<open>/[#!&+]/.test(channel)\<close>: the pattern has no anchor, so it looks at every character.\<close>

definition hasChannelChar :: "string \<Rightarrow> bool" where
  "hasChannelChar channel = list_ex (\<lambda>c. c \<in> set ''#!&+'') channel"

text \<open>\<open>channel.indexOf("#") !== 0\<close> is the negation of \<open>startsWithHash\<close>.\<close>

definition startsWithHash :: "string \<Rightarrow> bool" where
  "startsWithHash channel = (case channel of [] \<Rightarrow> False | c # _ \<Rightarrow> c = CHR ''#'')"

text \<open>The channel names of the specification: a first character among \<open># ! & +\<close>.\<close>

definition isChannelName :: "string \<Rightarrow> bool" where
  "isChannelName channel = (case channel of [] \<Rightarrow> False | c # _ \<Rightarrow> c \<in> set ''#!&+'')"

text \<open>\<open>channel + (key ? " " + key : "")\<close>\<close>

definition joinArg :: "string \<Rightarrow> string option \<Rightarrow> string" where
  "joinArg channel key =
     channel @ (case key of None \<Rightarrow> [] | Some k \<Rightarrow> if k = [] then [] else '' '' @ k)"

text \<open>
  \<open>_joinChannel(channel, key, attemptCount)\<close> up to its \<open>return\<close>. With no client
  and the connect-ready signal pending the call waits for that signal and then starts
  over. When the JOIN is issued the returned promise waits for the JOIN callback,
  for the one-shot error listener \<open>failFn\<close>, or for the round timer below.
  \<open>attemptCount || 1\<close> only matters to that timer.
\<close>

definition joinChannel' :: "session \<Rightarrow> string \<Rightarrow> string option \<Rightarrow> session \<times> room outcome" where
  "joinChannel' s channel key =
     (case unsafeClient s of
        None \<Rightarrow>
          if connectDeferPending s then (s, Waiting OnConnect)
          else (s, Rejected (Error ''No client''))
      | Some cli \<Rightarrow>
          if channel \<in> set (chans cli) then (s, Resolved (IrcRoom channel))
          else if \<not> hasChannelChar channel then (s, Resolved (IrcRoom channel))
          else if isExcludedChannel (server s) channel then
            (s, Rejected (Error (channel @ '' is a do-not-track channel.'')))
          else (send (JOIN (joinArg channel key)) (addChannel channel s), Waiting OnJoin))"

definition joinChannel :: "session \<Rightarrow> string \<Rightarrow> string option \<Rightarrow> session \<times> room outcome" where
  "joinChannel s channel key = joinChannel' s channel key"

text \<open>
  \<open>_leaveChannel(channel, reason)\<close>. \<open>this.unsafeClient.part\<close> on a missing client
  is a \<open>TypeError\<close> that escapes the call, after the channel was removed.
\<close>

definition leaveChannel' :: "session \<Rightarrow> string \<Rightarrow> string option \<Rightarrow> session \<times> unit outcome" where
  "leaveChannel' s channel reason =
     (let r = orDefault reason ''User left'' in
      if (case inst s of None \<Rightarrow> True | Some i \<Rightarrow> dead i) then (s, Resolved ())
      else if \<not> startsWithHash channel then (s, Resolved ())
      else if \<not> inChannel s channel then (s, Resolved ())
      else
        let s1 = removeChannel channel s in
        case unsafeClient s1 of
          None \<Rightarrow> (s1, Thrown TypeError)
        | Some cli \<Rightarrow> (send (PART channel r) s1, Waiting OnPart))"

definition leaveChannel :: "session \<Rightarrow> string \<Rightarrow> string option \<Rightarrow> session \<times> unit outcome" where
  "leaveChannel s channel reason = leaveChannel' s channel reason"

definition kick :: "session \<Rightarrow> string \<Rightarrow> string \<Rightarrow> string option \<Rightarrow> session \<times> unit outcome" where
  "kick s target channel reason =
     (let r = orDefault reason ''User kicked'' in
      if (case inst s of None \<Rightarrow> True | Some i \<Rightarrow> dead i) then (s, Resolved ())
      else
        case unsafeClient s of
          None \<Rightarrow> (s, Thrown TypeError)
        | Some cli \<Rightarrow>
            if channel \<notin> set (chans cli) then (s, Resolved ())
            else if \<not> startsWithHash channel then (s, Resolved ())
            else (send (KICK channel target r) s, Resolved ()))"

subsection \<open>Nick change, whois and names\<close>

text \<open>
  \<open>changeNick(newNick, throwOnInvalid)\<close> up to its \<open>return\<close>. After the NICK is sent
  the promise waits for the events handled by \<open>nickStep\<close> below.
\<close>

definition changeNick :: "session \<Rightarrow> string \<Rightarrow> bool \<Rightarrow> session \<times> string outcome" where
  "changeNick s newNick throwOnInvalid =
     (case getValidNick (unsafeClient s) newNick throwOnInvalid of
        Inl err \<Rightarrow> (s, Rejected err)
      | Inr validNick \<Rightarrow>
          if validNick = nick s then
            (s, Resolved (''Your nick is already '' @ quoted validNick @ ''.''))
          else
            (case unsafeClient s of
               None \<Rightarrow> (s, Rejected (Error ''You are not connected to the network.''))
             | Some cli \<Rightarrow> (send (NICK validNick) s, Waiting OnNick)))"

text \<open>
  \<open>whois\<close> and \<open>getNicks\<close> call the client inside the promise's executor, so a
  missing client rejects the promise with the \<open>TypeError\<close>.
\<close>

definition whois :: "session \<Rightarrow> string \<Rightarrow> session \<times> string outcome" where
  "whois s target =
     (case unsafeClient s of
        None \<Rightarrow> (s, Rejected TypeError)
      | Some cli \<Rightarrow> (send (WHOIS target) s, Waiting OnWhois))"

definition getNicks :: "session \<Rightarrow> string \<Rightarrow> session \<times> nicks_info outcome" where
  "getNicks s channel =
     (case unsafeClient s of
        None \<Rightarrow> (s, Rejected TypeError)
      | Some cli \<Rightarrow> (send (NAMES channel) s, Waiting OnNames))"

subsection \<open>Operators\<close>

text \<open>
  The values \<open>opts.key\<close> and \<open>opts.cacheDurationMs\<close> can take, as far as the checks
  of \<open>getOperators\<close> tell them apart; \<open>JOther\<close> is any other value (a number that is
  no integer, a boolean, an object).
\<close>

datatype jsval = JUndefined | JNull | JString string | JInt int | JOther

record operator_opts =
  opts_key :: jsval
  opts_cacheDurationMs :: jsval

text \<open>
  \<open>getOperators(channel, opts)\<close> up to the first upstream reply it has to wait for;
  \<open>opts = None\<close> is a call with \<open>undefined\<close> or \<open>null\<close>. The steps after the NAMES
  reply (leave, operator filter, caching) are not modelled.
\<close>

definition typeofString :: "jsval \<Rightarrow> bool" where
  "typeofString v = (case v of JString _ \<Rightarrow> True | _ \<Rightarrow> False)"

text \<open>\<open>Number.isInteger(v) && v > 0\<close>\<close>

definition positiveInteger :: "jsval \<Rightarrow> bool" where
  "positiveInteger v = (case v of JInt d \<Rightarrow> d > 0 | _ \<Rightarrow> False)"

text \<open>The key handed on to \<open>_joinChannel\<close>: a string, or \<open>undefined\<close>.\<close>

definition keyOf :: "jsval \<Rightarrow> string option" where
  "keyOf v = (case v of JString k \<Rightarrow> Some k | _ \<Rightarrow> None)"

text \<open>
  The cache is a plain object read as \<open>this._cachedOperatorNicksInfo[channel]\<close>, so
  a channel named like a member of \<open>Object.prototype\<close> finds the inherited member
  even when nothing was cached for it. What the call resolves with is then either an
  operator-info snapshot or that inherited member.
\<close>

definition objectPrototypeMembers :: "string list" where
  "objectPrototypeMembers =
     [''constructor'', ''hasOwnProperty'', ''isPrototypeOf'', ''propertyIsEnumerable'',
      ''toLocaleString'', ''toString'', ''valueOf'', ''__proto__'', ''__defineGetter__'',
      ''__defineSetter__'', ''__lookupGetter__'', ''__lookupSetter__'']"

datatype operators_result = Info nicks_info | Inherited string

definition cacheLookup :: "session \<Rightarrow> string \<Rightarrow> operators_result option" where
  "cacheLookup s channel =
     (case cachedOperatorNicksInfo s channel of
        Some i \<Rightarrow> Some (Info i)
      | None \<Rightarrow> if channel \<in> set objectPrototypeMembers then Some (Inherited channel) else None)"

text \<open>The head of the promise chain: \<open>_joinChannel(channel, key).then(() => getNicks(channel))\<close>.\<close>

definition joinThenNames :: "session \<Rightarrow> string \<Rightarrow> string option \<Rightarrow> session \<times> operators_result outcome" where
  "joinThenNames s channel key =
     (case joinChannel' s channel key of
        (s1, Resolved _) \<Rightarrow> (case getNicks s1 channel of (s2, r) \<Rightarrow> (s2, map_outcome Info r))
      | (s1, Rejected e) \<Rightarrow> (s1, Rejected e)
      | (s1, Thrown e) \<Rightarrow> (s1, Thrown e)
      | (s1, Waiting w) \<Rightarrow> (s1, Waiting w))"

definition getOperators :: "session \<Rightarrow> string \<Rightarrow> operator_opts option \<Rightarrow> session \<times> operators_result outcome" where
  "getOperators s channel opts =
     (case opts of
        None \<Rightarrow> (s, Thrown TypeError)
      | Some ops \<Rightarrow>
          if opts_key ops \<noteq> JUndefined \<and> \<not> typeofString (opts_key ops) then
            (s, Thrown (Error ''key must be a string''))
          else if opts_cacheDurationMs ops \<noteq> JUndefined \<and>
                  \<not> positiveInteger (opts_cacheDurationMs ops) then
            (s, Thrown (Error ''cacheDurationMs must be a positive integer''))
          else
            (case (if opts_cacheDurationMs ops \<noteq> JUndefined
                   then cacheLookup s channel else None) of
               Some cached \<Rightarrow> (s, Resolved cached)
             | None \<Rightarrow> joinThenNames s channel (keyOf (opts_key ops))))"

subsection \<open>Sending\<close>

text \<open>\<open>action.ts\<close> is \<open>0\<close> when absent.\<close>

record action =
  action_type :: string
  action_text :: string
  action_ts :: int

text \<open>
  \<open>_sendMessage\<close>: waits for the connect-ready signal, joins, re-checks the expiry
  and sends. An exception in the \<open>done\<close> handler is not caught.
\<close>

definition sendMessage :: "session \<Rightarrow> string \<Rightarrow> string \<Rightarrow> string \<Rightarrow> int \<Rightarrow> int \<Rightarrow> session \<times> unit outcome" where
  "sendMessage s channel msgType txt expiryTs now =
     (if connectDeferPending s then (s, Waiting OnConnect)
      else
        case joinChannel' s channel None of
          (s1, Resolved _) \<Rightarrow>
            if expiryTs \<noteq> 0 \<and> now > expiryTs then (s1, Resolved ())
            else
              (case unsafeClient s1 of
                 None \<Rightarrow> (s1, Thrown TypeError)
               | Some cli \<Rightarrow>
                   if msgType = ''action'' then (send (ACTION channel txt) s1, Resolved ())
                   else if msgType = ''notice'' then (send (NOTICE channel txt) s1, Resolved ())
                   else if msgType = ''message'' then (send (SAY channel txt) s1, Resolved ())
                   else (s1, Resolved ()))
        | (s1, Rejected e) \<Rightarrow> (s1, Rejected e)
        | (s1, Thrown e) \<Rightarrow> (s1, Thrown e)
        | (s1, Waiting w) \<Rightarrow> (s1, Waiting w))"

text \<open>\<open>_setTopic\<close>: an exception in the \<open>then\<close> handler rejects the returned promise.\<close>

definition setTopic :: "session \<Rightarrow> string \<Rightarrow> string \<Rightarrow> session \<times> unit outcome" where
  "setTopic s channel topic =
     (case joinChannel' s channel None of
        (s1, Resolved _) \<Rightarrow>
          (case unsafeClient s1 of
             None \<Rightarrow> (s1, Rejected TypeError)
           | Some cli \<Rightarrow> (send (TOPIC channel topic) s1, Resolved ()))
      | (s1, Rejected e) \<Rightarrow> (s1, Rejected e)
      | (s1, Thrown e) \<Rightarrow> (s1, Thrown e)
      | (s1, Waiting w) \<Rightarrow> (s1, Waiting w))"

text \<open>\<open>sendAction(room, action)\<close>; \<open>channel\<close> is \<open>room.channel\<close> and \<open>now\<close> is \<open>Date.now()\<close>.\<close>

definition sendAction :: "session \<Rightarrow> string \<Rightarrow> action \<Rightarrow> int \<Rightarrow> session \<times> unit outcome" where
  "sendAction s channel a now =
     (let s1 = keepAlive s now;
          expiryTs = (if action_ts a \<noteq> 0 \<and> getExpiryTimeSeconds (server s1) \<noteq> 0
                      then action_ts a + getExpiryTimeSeconds (server s1) * 1000 else 0) in
      if action_type a = ''message'' then sendMessage s1 channel ''message'' (action_text a) expiryTs now
      else if action_type a = ''notice'' then sendMessage s1 channel ''notice'' (action_text a) expiryTs now
      else if action_type a = ''emote'' then sendMessage s1 channel ''action'' (action_text a) expiryTs now
      else if action_type a = ''topic'' then setTopic s1 channel (action_text a)
      else (s1, Rejected (Error (''Unknown action type: '' @ action_type a))))"

subsection \<open>The round timer of a join\<close>

text \<open>
  What the callback given to \<open>setTimeout\<close> in \<open>_joinChannel\<close> decides when it
  runs: \<open>isPending\<close> is \<open>defer.promise.isPending()\<close> and \<open>attemptCount\<close> is the
  count of the round that armed the timer.
\<close>

datatype join_timer = TimerNothing | TimerResolve room | TimerReject error | TimerRetry nat

definition joinTimeout :: "session \<Rightarrow> string \<Rightarrow> nat \<Rightarrow> bool \<Rightarrow> join_timer" where
  "joinTimeout s channel attemptCount isPending =
     (case unsafeClient s of
        None \<Rightarrow> TimerNothing
      | Some cli \<Rightarrow>
          if isPending \<and> channel \<in> set (chanList s) then
            if channel \<in> set (chans cli) then TimerResolve (IrcRoom channel)
            else if attemptCount \<ge> 5 then
              TimerReject (Error (''Failed to join '' @ channel @ '' after multiple tries''))
            else TimerRetry (attemptCount + 1)
          else TimerNothing)"

text \<open>
  One \<open>_joinChannel(channel, key, attemptCount)\<close> followed through its rounds.
  \<open>env a s\<close> is what the upstream and other operations do to the session during
  the 15 seconds of round \<open>a\<close>, together with the settlement of the promise when the
  JOIN callback or \<open>failFn\<close> settled it in that time. A retry is the recursive call
  of the source, whose result settles the promise of the round before.
\<close>

function joinRounds ::
  "(nat \<Rightarrow> session \<Rightarrow> session \<times> (error + room) option) \<Rightarrow> session \<Rightarrow> string \<Rightarrow> string option \<Rightarrow> nat
     \<Rightarrow> session \<times> room outcome" where
  "joinRounds env s channel key attemptCount =
     (let a = (if attemptCount = 0 then 1 else attemptCount);
          r = joinChannel' s channel key in
      if snd r \<noteq> Waiting OnJoin then r
      else
        let e = env a (fst r) in
        case snd e of
          Some (Inr rm) \<Rightarrow> (fst e, Resolved rm)
        | Some (Inl err) \<Rightarrow> (fst e, Rejected err)
        | None \<Rightarrow>
            (case joinTimeout (fst e) channel a True of
               TimerNothing \<Rightarrow> (fst e, Waiting OnJoin)
             | TimerResolve rm \<Rightarrow> (fst e, Resolved rm)
             | TimerReject err \<Rightarrow> (fst e, Rejected err)
             | TimerRetry a' \<Rightarrow> joinRounds env (fst e) channel key a'))"
  by pat_completeness auto

termination joinRounds
proof (relation "measure (\<lambda>(env, s, channel, key, a). 5 - (if a = 0 then 1 else a))")
  show "wf (measure (\<lambda>(env, s, channel, key, a). 5 - (if a = 0 then 1 else a)))"
    by simp
next
  fix env :: "nat \<Rightarrow> session \<Rightarrow> session \<times> (error + room) option"
  fix s :: session and e1 :: "session \<times> (error + room) option"
  fix channel :: string and key :: "string option" and attemptCount a a' :: nat
  assume "a = (if attemptCount = 0 then 1 else attemptCount)"
    and "joinTimeout (fst e1) channel a True = TimerRetry a'"
  then show "((env, fst e1, channel, key, a'), (env, s, channel, key, attemptCount))
      \<in> measure (\<lambda>(env, s, channel, key, a). 5 - (if a = 0 then 1 else a))"
    by (auto simp: joinTimeout_def split: option.splits if_splits)
qed

declare joinRounds.simps [simp del]

subsection \<open>The pending nick change\<close>









subsection \<open>A concrete session\<close>

text \<open>
  A server with a 300-second idle timeout that excludes no channel and does not
  mirror membership, and a registered session for the nick \<open>alice\<close> on it.
\<close>

definition exampleServer :: irc_server where
  "exampleServer =
     \<lparr>domain = ''irc.example.org'', getIdleTimeout = 300, getExpiryTimeSeconds = 0,
      getUserModes = [], shouldSyncMembershipToIrc = (\<lambda>phase. False),
      isExcludedChannel = (\<lambda>channel. False)\<rparr>"

definition exampleClient :: raw_client where
  "exampleClient = \<lparr>chans = [], nicklength = Some 9, clientNick = ''alice''\<rparr>"

definition exampleSession :: session where
  "exampleSession = connected (BridgedClient exampleServer ''alice'' False 0) exampleClient 0"

subsection \<open>Notions used in the statements\<close>

text \<open>
  The number of JOIN commands one \<open>_joinChannel\<close> started with a given attempt
  count can still issue.
\<close>

definition roundsLeft :: "nat \<Rightarrow> nat" where
  "roundsLeft a = max 1 (6 - (if a = 0 then 1 else a))"


text \<open>The public operations a caller can invoke on a session, and their effect on it.\<close>

datatype operation =
    JoinChannel string "string option"
  | LeaveChannel string "string option"
  | ChangeNick string bool
  | SendAction string action int
  | Kick string string "string option"
  | Whois string
  | GetNicks string
  | GetOperators string "operator_opts option"
  | Disconnect string

fun perform :: "session \<Rightarrow> operation \<Rightarrow> session" where
  "perform s (JoinChannel channel key) = fst (joinChannel s channel key)"
| "perform s (LeaveChannel channel reason) = fst (leaveChannel s channel reason)"
| "perform s (ChangeNick newNick throwOnInvalid) = fst (changeNick s newNick throwOnInvalid)"
| "perform s (SendAction channel a now) = fst (sendAction s channel a now)"
| "perform s (Kick target channel reason) = fst (kick s target channel reason)"
| "perform s (Whois target) = fst (whois s target)"
| "perform s (GetNicks channel) = fst (getNicks s channel)"
| "perform s (GetOperators channel opts) = fst (getOperators s channel opts)"
| "perform s (Disconnect reason) = fst (disconnect s reason)"


text \<open>
  The states a session can be in: created by the constructor and then changed by the
  end of \<open>connect\<close>, by public operations and \<open>kill\<close>, by the idle timer, by a
  disconnect report, by the upstream changing what the client handle shows, by the
  permanent \<open>nick\<close> listener following a rename, and by the later steps of pending
  operations, which send through the client handle or fill and clear the operator
  cache.
\<close>

inductive reachable :: "session \<Rightarrow> bool" where
  created: "reachable (BridgedClient srv desired bot_flag now)"
| connect_ok: "reachable s \<Longrightarrow> reachable (connected s cli now)"
| connect_failed: "reachable s \<Longrightarrow> reachable (connectFailed s)"
| operation: "reachable s \<Longrightarrow> reachable (perform s op)"
| kill: "reachable s \<Longrightarrow> reachable (fst (kill s reason))"
| idle_timer: "reachable s \<Longrightarrow> reachable (idleTimerExpires s)"
| disconnect_report: "reachable s \<Longrightarrow> reachable (onDisconnect s reason)"
| upstream: "reachable s \<Longrightarrow> unsafeClient s = Some cli \<Longrightarrow>
             reachable (s\<lparr>unsafeClient := Some cli'\<rparr>)"
| renamed: "reachable s \<Longrightarrow> reachable (s\<lparr>nick := n\<rparr>)"
| sent: "reachable s \<Longrightarrow> unsafeClient s = Some cli \<Longrightarrow> reachable (send c s)"
| cached: "reachable s \<Longrightarrow> reachable (s\<lparr>cachedOperatorNicksInfo := m\<rparr>)"

text \<open>An armed idle timer carries the idle timeout of the server's configuration.\<close>

definition handleOk :: "session \<Rightarrow> bool" where
  "handleOk s = (case idleTimeoutHandle s of None \<Rightarrow> True | Some t \<Rightarrow> t = getIdleTimeout (server s))"


section \<open>Properties\<close>

subsection \<open>Nick validation\<close>

lemma isLetter_legal: "isLetter c \<Longrightarrow> legalChar c"
  by (simp add: legalChar_def)

lemma isLetter_M: "isLetter CHR ''M''"
  by (simp add: isLetter_def)

lemma checkNickLength_coerce:
  "checkNickLength cli orig n False =
     Inr (case cli of None \<Rightarrow> n
          | Some c \<Rightarrow> if int (length n) > maxNickLen c then take (nat (maxNickLen c)) n else n)"
  by (simp add: checkNickLength_def split: option.splits)

lemma getValidNick_coerce:
  "getValidNick cli orig False = checkNickLength cli orig (prefixed orig) False"
  by (simp add: getValidNick_def prefixed_def Let_def)

lemma prefixed_format: "validNickFormat (prefixed orig)"
  by (auto simp: prefixed_def validNickFormat_def startsWithLetter_def Let_def isLetter_M
      list_all_iff split: list.splits dest: filter_eq_ConsD)

lemma validNickFormat_take: "validNickFormat n \<Longrightarrow> 0 < k \<Longrightarrow> validNickFormat (take k n)"
  by (cases n; cases k) (auto simp: validNickFormat_def list_all_iff dest: in_set_takeD)

lemma validNickFormat_legal: "validNickFormat n \<Longrightarrow> filter legalChar n = n \<and> startsWithLetter n"
  by (cases n) (auto simp: validNickFormat_def startsWithLetter_def list_all_iff isLetter_legal)

lemmas nick_eval = getValidNick_def checkNickLength_def maxNickLen_def startsWithLetter_def
  legalChar_def isLetter_def isDigit_def quoted_def

text \<open>
  C4, as amended. For every input nick, \<open>validate(nick, strict=false)\<close> returns a
  string. It matches \<open>^[A-Za-z][A-Za-z0-9\]\[\^\\\{\}\-`_|]*$\<close> when no live client is
  present or the live client's length limit is at least 1. With a live client the
  result is no longer than the server-advertised NICKLEN (unless that is negative),
  and no longer than 9 when no NICKLEN is advertised. With no live client no length
  check is applied: the result is the stripped and prefixed nick.
\<close>

theorem getValidNick_coerced_format:
  "\<exists>r. getValidNick cli n False = Inr r
     \<and> (positiveNickLen cli \<longrightarrow> validNickFormat r)
     \<and> (\<forall>c l. cli = Some c \<and> nicklength c = Some l \<and> 0 \<le> l \<longrightarrow> int (length r) \<le> l)
     \<and> (\<forall>c. cli = Some c \<and> nicklength c = None \<longrightarrow> length r \<le> 9)
     \<and> (cli = None \<longrightarrow> r = prefixed n)"
proof (cases cli)
  case None
  then show ?thesis
    by (simp add: getValidNick_coerce checkNickLength_coerce positiveNickLen_def prefixed_format)
next
  case (Some c)
  let ?r = "if int (length (prefixed n)) > maxNickLen c
            then take (nat (maxNickLen c)) (prefixed n) else prefixed n"
  have r: "getValidNick cli n False = Inr ?r"
    using Some by (simp add: getValidNick_coerce checkNickLength_coerce)
  have fmt: "positiveNickLen cli \<longrightarrow> validNickFormat ?r"
    using Some by (simp add: positiveNickLen_def prefixed_format validNickFormat_take)
  have len: "0 \<le> maxNickLen c \<longrightarrow> int (length ?r) \<le> maxNickLen c"
    by simp
  have l1: "\<forall>c' l. cli = Some c' \<and> nicklength c' = Some l \<and> 0 \<le> l \<longrightarrow> int (length ?r) \<le> l"
    using Some len by (auto simp: maxNickLen_def)
  have l2: "\<forall>c'. cli = Some c' \<and> nicklength c' = None \<longrightarrow> length ?r \<le> 9"
    using Some len by (auto simp: maxNickLen_def)
  show ?thesis
    using r fmt l1 l2 Some by blast
qed

theorem getValidNick_coerced_format_witness:
  "positiveNickLen (Some \<lparr>chans = [], nicklength = Some 9, clientNick = ''alice''\<rparr>)
   \<and> getValidNick (Some \<lparr>chans = [], nicklength = Some 9, clientNick = ''alice''\<rparr>)
        ''alexandermax'' False = Inr ''alexander''
   \<and> validNickFormat ''alexander'' \<and> length ''alexander'' \<le> 9"
  using getValidNick_coerced_format
    [of "Some \<lparr>chans = [], nicklength = Some 9, clientNick = ''alice''\<rparr>" "''alexandermax''"]
  by (simp add: nick_eval positiveNickLen_def validNickFormat_def)

text \<open>
  The claim as stated fails: a live client that advertises no NICKLEN still gets the
  length check, with the limit 9, and an advertised NICKLEN of 0 yields the empty
  string, which does not have the shape of a nick.
\<close>

theorem getValidNick_default_limit_counterexample:
  "getValidNick (Some \<lparr>chans = [], nicklength = None, clientNick = ''alice''\<rparr>)
      ''alexandermax'' False = Inr ''alexander''
   \<and> prefixed ''alexandermax'' = ''alexandermax''
   \<and> getValidNick (Some \<lparr>chans = [], nicklength = Some 0, clientNick = ''alice''\<rparr>)
      ''alexandermax'' False = Inr []
   \<and> \<not> validNickFormat []"
  by (simp add: nick_eval prefixed_def validNickFormat_def)

lemma strict_result:
  "getValidNick cli n True = Inr r \<Longrightarrow>
     r = n \<and> filter legalChar n = n \<and> startsWithLetter n
     \<and> (\<forall>c. cli = Some c \<longrightarrow> int (length n) \<le> maxNickLen c)"
  by (auto simp: getValidNick_def checkNickLength_def Let_def split: if_splits option.splits)

lemma strict_ok:
  "filter legalChar n = n \<Longrightarrow> startsWithLetter n \<Longrightarrow>
     (\<forall>c. cli = Some c \<longrightarrow> int (length n) \<le> maxNickLen c) \<Longrightarrow>
     getValidNick cli n True = Inr n"
  by (auto simp: getValidNick_def checkNickLength_def Let_def split: if_splits option.splits)

lemma prefixed_legal: "filter legalChar (prefixed n) = prefixed n"
  using prefixed_format validNickFormat_legal by blast

lemma filter_take_id: "filter P xs = xs \<Longrightarrow> filter P (take k xs) = take k xs"
  by (metis filter_id_conv in_set_takeD)

lemma coerce_legal:
  assumes "getValidNick cli n False = Inr r"
  shows "filter legalChar r = r"
  using assms prefixed_legal [of n]
  by (auto simp: getValidNick_coerce checkNickLength_coerce filter_take_id
      split: option.splits if_splits)

lemma take_prefix_M:
  assumes "take k (CHR ''M'' # n) = n" and "\<not> startsWithLetter n"
  shows "n = [] \<and> k = 0"
  using assms by (cases k; cases n) (auto simp: startsWithLetter_def isLetter_M)

lemma coerce_unchanged:
  assumes eq: "getValidNick cli n False = Inr n" and ne: "n \<noteq> [] \<or> positiveNickLen cli"
  shows "filter legalChar n = n \<and> startsWithLetter n
         \<and> (\<forall>c. cli = Some c \<longrightarrow> int (length n) \<le> maxNickLen c)"
proof -
  have legal: "filter legalChar n = n"
    using eq by (rule coerce_legal)
  have letter: "startsWithLetter n"
  proof (rule ccontr)
    assume no: "\<not> startsWithLetter n"
    then have p: "prefixed n = CHR ''M'' # n"
      by (simp add: prefixed_def legal)
    show False
    proof (cases cli)
      case None
      then show False using eq p by (simp add: getValidNick_coerce checkNickLength_coerce)
    next
      case (Some c)
      then have "take (nat (maxNickLen c)) (CHR ''M'' # n) = n"
        using eq p by (simp add: getValidNick_coerce checkNickLength_coerce split: if_splits)
      then have "n = [] \<and> nat (maxNickLen c) = 0"
        using no by (rule take_prefix_M)
      then show False
        using ne Some by (simp add: positiveNickLen_def)
    qed
  qed
  then have p: "prefixed n = n"
    by (simp add: prefixed_def legal)
  have "int (length n) \<le> maxNickLen c" if "cli = Some c" for c
  proof (rule ccontr)
    assume "\<not> int (length n) \<le> maxNickLen c"
    then have gt: "int (length n) > maxNickLen c" by simp
    have "(if maxNickLen c < int (length n) then take (nat (maxNickLen c)) n else n) = n"
      using eq p that by (simp add: getValidNick_coerce checkNickLength_coerce)
    then have "take (nat (maxNickLen c)) n = n"
      using gt by (simp only: if_True)
    then have "length n \<le> nat (maxNickLen c)"
      by (metis length_take min.cobounded2)
    moreover have "0 < length n"
      using letter by (auto simp: startsWithLetter_def)
    ultimately show False using gt by linarith
  qed
  then show ?thesis using legal letter by blast
qed

lemma strict_message:
  "getValidNick cli n True =
     (if filter legalChar n \<noteq> n then
        Inl (Error (''Nick '' @ quoted n @ '' contains illegal characters.''))
      else if \<not> startsWithLetter n then
        Inl (Error (''Nick '' @ quoted n @ '' must start with a letter.''))
      else case cli of
        None \<Rightarrow> Inr n
      | Some c \<Rightarrow>
          if maxNickLen c < int (length n) then
            Inl (Error (''Nick '' @ quoted n @ '' is too long. (Max: '' @
                        string_of_int (maxNickLen c) @ '')''))
          else Inr n)"
  by (auto simp: getValidNick_def checkNickLength_def Let_def split: option.splits)

text \<open>
  C5, as amended. For every input nick that is not empty, and for the empty nick
  unless a live client's length limit is below 1: \<open>validate(nick, strict=true)\<close>
  returns \<open>nick\<close> unchanged exactly when \<open>validate(nick, strict=false)\<close> returns
  \<open>nick\<close> unchanged, and whenever \<open>validate(nick, strict=false)\<close> would alter the
  input, one of the three rules is violated and \<open>validate(nick, strict=true)\<close>
  raises the error whose message names the first rule violated: "contains illegal
  characters." when stripping alters the nick; otherwise "must start with a letter."
  when no letter comes first; otherwise "is too long. (Max: N)" with the limit N of
  the live client when the nick is longer than that.
\<close>

theorem getValidNick_strict_iff_unchanged:
  assumes "n \<noteq> [] \<or> positiveNickLen cli"
  shows "(getValidNick cli n True = Inr n \<longleftrightarrow> getValidNick cli n False = Inr n)
     \<and> (getValidNick cli n False \<noteq> Inr n \<longrightarrow>
          filter legalChar n \<noteq> n \<or> \<not> startsWithLetter n \<or>
          (\<exists>c. cli = Some c \<and> maxNickLen c < int (length n)))
     \<and> (filter legalChar n \<noteq> n \<longrightarrow>
          getValidNick cli n False \<noteq> Inr n \<and>
          getValidNick cli n True =
            Inl (Error (''Nick '' @ quoted n @ '' contains illegal characters.'')))
     \<and> (filter legalChar n = n \<and> \<not> startsWithLetter n \<longrightarrow>
          getValidNick cli n False \<noteq> Inr n \<and>
          getValidNick cli n True =
            Inl (Error (''Nick '' @ quoted n @ '' must start with a letter.'')))
     \<and> (\<forall>c. filter legalChar n = n \<and> startsWithLetter n \<and> cli = Some c
              \<and> maxNickLen c < int (length n) \<longrightarrow>
          getValidNick cli n False \<noteq> Inr n \<and>
          getValidNick cli n True =
            Inl (Error (''Nick '' @ quoted n @ '' is too long. (Max: '' @
                        string_of_int (maxNickLen c) @ '')'')))"
proof -
  have a: "getValidNick cli n False = Inr n" if "getValidNick cli n True = Inr n"
  proof -
    from strict_result [OF that]
    have "prefixed n = n" and "\<forall>c. cli = Some c \<longrightarrow> int (length n) \<le> maxNickLen c"
      by (simp_all add: prefixed_def)
    then show ?thesis
      by (auto simp: getValidNick_coerce checkNickLength_coerce split: option.splits)
  qed
  have b: "getValidNick cli n True = Inr n" if "getValidNick cli n False = Inr n"
    using coerce_unchanged [OF that assms] by (intro strict_ok) auto
  have unchanged: "getValidNick cli n True = Inr n \<longleftrightarrow> getValidNick cli n False = Inr n"
    using a b by blast
  have altered: "getValidNick cli n False \<noteq> Inr n \<longrightarrow>
          filter legalChar n \<noteq> n \<or> \<not> startsWithLetter n \<or>
          (\<exists>c. cli = Some c \<and> maxNickLen c < int (length n))"
    using unchanged strict_ok [of n cli] by fastforce
  have m1: "filter legalChar n \<noteq> n \<longrightarrow>
          getValidNick cli n True =
            Inl (Error (''Nick '' @ quoted n @ '' contains illegal characters.''))"
    by (simp add: strict_message)
  have m2: "filter legalChar n = n \<and> \<not> startsWithLetter n \<longrightarrow>
          getValidNick cli n True =
            Inl (Error (''Nick '' @ quoted n @ '' must start with a letter.''))"
    by (simp add: strict_message)
  have m3: "\<forall>c. filter legalChar n = n \<and> startsWithLetter n \<and> cli = Some c
              \<and> maxNickLen c < int (length n) \<longrightarrow>
          getValidNick cli n True =
            Inl (Error (''Nick '' @ quoted n @ '' is too long. (Max: '' @
                        string_of_int (maxNickLen c) @ '')''))"
    by (simp add: strict_message)
  have raised: "getValidNick cli n False \<noteq> Inr n" if "getValidNick cli n True = Inl e" for e
    using that unchanged by auto
  show ?thesis
    using unchanged altered m1 m2 m3 raised by blast
qed

text \<open>
  An unchanged nick, and one nick for each rule: illegal characters, no leading
  letter, and too long for the client's NICKLEN of 9.
\<close>

theorem getValidNick_strict_iff_unchanged_witness:
  "positiveNickLen None
   \<and> getValidNick None ''bob'' True = Inr ''bob'' \<and> getValidNick None ''bob'' False = Inr ''bob''
   \<and> getValidNick None ''123bob!'' False = Inr ''M123bob''
   \<and> getValidNick None ''123bob!'' True =
        Inl (Error (''Nick '' @ quoted ''123bob!'' @ '' contains illegal characters.''))
   \<and> getValidNick None ''123'' False = Inr ''M123''
   \<and> getValidNick None ''123'' True =
        Inl (Error (''Nick '' @ quoted ''123'' @ '' must start with a letter.''))
   \<and> getValidNick (Some exampleClient) ''alexandermax'' False = Inr ''alexander''
   \<and> getValidNick (Some exampleClient) ''alexandermax'' True =
        Inl (Error (''Nick '' @ quoted ''alexandermax'' @ '' is too long. (Max: 9)''))"
proof -
  have h1: "''bob'' \<noteq> [] \<or> positiveNickLen None" by simp
  have h2: "''123bob!'' \<noteq> [] \<or> positiveNickLen None" by simp
  have h3: "''123'' \<noteq> [] \<or> positiveNickLen None" by simp
  have h4: "''alexandermax'' \<noteq> [] \<or> positiveNickLen (Some exampleClient)" by simp
  have nine: "string_of_int 9 = ''9''"
    by (simp add: string_of_int_def string_of_nat.simps digitChar_def)
  from getValidNick_strict_iff_unchanged [OF h1] getValidNick_strict_iff_unchanged [OF h2]
    getValidNick_strict_iff_unchanged [OF h3] getValidNick_strict_iff_unchanged [OF h4]
  show ?thesis
    by (simp add: nick_eval positiveNickLen_def exampleClient_def nine)
qed

text \<open>
  The claim as stated fails for the empty nick on a client whose NICKLEN is 0: the
  coercion puts \<open>M\<close> in front and cuts it off again, so it returns the input
  unchanged, while the strict call raises.
\<close>

theorem getValidNick_strict_empty_counterexample:
  "getValidNick (Some \<lparr>chans = [], nicklength = Some 0, clientNick = ''alice''\<rparr>) [] False = Inr []
   \<and> getValidNick (Some \<lparr>chans = [], nicklength = Some 0, clientNick = ''alice''\<rparr>) [] True
       = Inl (Error (''Nick '' @ quoted [] @ '' must start with a letter.''))"
  by (simp add: getValidNick_def checkNickLength_def maxNickLen_def startsWithLetter_def)

subsection \<open>The concrete session\<close>

lemma exampleSession_eq:
  "exampleSession =
     \<lparr>server = exampleServer, nick = ''alice'', isBot = False, lastActionTs = 0,
      inst = Some \<lparr>dead = False, disconnectReasons = []\<rparr>, unsafeClient = Some exampleClient,
      instCreationFailed = False, explicitDisconnect = False, disconnectReason = None,
      chanList = [], connectDeferPending = False, idleTimeoutHandle = Some 300,
      cachedOperatorNicksInfo = Map.empty, wire = []\<rparr>"
  by (simp add: exampleSession_def connected_def BridgedClient_def keepAlive_def exampleServer_def
      exampleClient_def send_def nick_eval)

lemma reachable_exampleSession: "reachable exampleSession"
  unfolding exampleSession_def by (intro reachable.connect_ok reachable.created)

lemma string_of_int_300: "string_of_int 300 = ''300''"
  by (simp add: string_of_int_def string_of_nat.simps digitChar_def)

subsection \<open>Joining\<close>

lemma hasChannelChar_iff: "hasChannelChar channel \<longleftrightarrow> set channel \<inter> set ''#!&+'' \<noteq> {}"
  by (auto simp: hasChannelChar_def list_ex_iff)

text \<open>
  C1, as amended. For every call \<open>JoinChannel(channel, key)\<close> on a session whose raw
  client is present, where \<open>channel\<close> contains none of the characters \<open>#\<close>, \<open>!\<close>,
  \<open>&\<close>, \<open>+\<close>, the operation resolves immediately with a room descriptor for that
  channel, sends no JOIN command and leaves \<open>chanList\<close> (and the rest of the
  session) unchanged.
\<close>

theorem joinChannel_private_target:
  assumes "unsafeClient s = Some cli" and "set channel \<inter> set ''#!&+'' = {}"
  shows "joinChannel s channel key = (s, Resolved (IrcRoom channel))
         \<and> wire (fst (joinChannel s channel key)) = wire s
         \<and> chanList (fst (joinChannel s channel key)) = chanList s"
  using assms
  by (simp add: joinChannel_def joinChannel'_def hasChannelChar_iff)

theorem joinChannel_private_target_witness:
  "unsafeClient exampleSession = Some exampleClient \<and> set ''bob'' \<inter> set ''#!&+'' = {}
   \<and> joinChannel exampleSession ''bob'' None = (exampleSession, Resolved (IrcRoom ''bob''))"
proof -
  have h1: "unsafeClient exampleSession = Some exampleClient" by (simp add: exampleSession_eq)
  have h2: "set ''bob'' \<inter> set ''#!&+'' = {}" by simp
  from joinChannel_private_target [OF h1 h2] h1 h2 show ?thesis by simp
qed

text \<open>
  The claim as stated fails on a session without a raw client: after \<open>kill\<close> the
  join of the direct-message target \<open>bob\<close> rejects with \<open>No client\<close>. It also
  fails for a name that has one of the four characters after its first position:
  joining \<open>a#b\<close> on the registered session sends a JOIN.
\<close>

theorem joinChannel_no_client_counterexample:
  "\<not> isChannelName ''bob''
   \<and> snd (joinChannel (fst (kill exampleSession None)) ''bob'' None) = Rejected (Error ''No client'')
   \<and> \<not> isChannelName ''a#b''
   \<and> joinChannel exampleSession ''a#b'' None =
        (send (JOIN ''a#b'') (addChannel ''a#b'' exampleSession), Waiting OnJoin)"
  by (simp add: isChannelName_def joinChannel_def joinChannel'_def kill_def disconnect_def
      exampleSession_eq orDefault_def inst_disconnect_def exampleClient_def exampleServer_def
      hasChannelChar_def joinArg_def)

text \<open>
  C6. Every element of \<open>chanList\<close> should begin with \<open>#\<close>, \<open>!\<close>, \<open>&\<close> or \<open>+\<close>.
  The code breaks this: on the registered session with an empty \<open>chanList\<close>, joining
  \<open>a#b\<close> sends a JOIN and puts \<open>a#b\<close> into \<open>chanList\<close>, because the test for a
  channel name looks for the four characters anywhere in the name.
\<close>

theorem chanList_unanchored_entry:
  "reachable (perform exampleSession (JoinChannel ''a#b'' None))
   \<and> chanList exampleSession = []
   \<and> chanList (perform exampleSession (JoinChannel ''a#b'' None)) = [''a#b'']
   \<and> wire (perform exampleSession (JoinChannel ''a#b'' None)) = [JOIN ''a#b'']
   \<and> \<not> isChannelName ''a#b''"
proof -
  have "reachable (perform exampleSession (JoinChannel ''a#b'' None))"
    using reachable_exampleSession by (rule reachable.operation)
  then show ?thesis
    by (simp add: isChannelName_def joinChannel_def joinChannel'_def exampleSession_eq
        exampleClient_def exampleServer_def hasChannelChar_def addChannel_def send_def joinArg_def)
qed

text \<open>
  C7. Leaving a channel of \<open>chanList\<close> on a live session should remove it and send
  PART for every channel name. The code breaks this for names that begin with \<open>!\<close>,
  \<open>&\<close> or \<open>+\<close>: after joining \<open>&local\<close>, leaving it resolves without any change,
  so the channel stays in \<open>chanList\<close> and no PART is sent.
\<close>

theorem leaveChannel_ampersand_noop:
  "isChannelName ''&local''
   \<and> chanList (fst (joinChannel exampleSession ''&local'' None)) = [''&local'']
   \<and> leaveChannel (fst (joinChannel exampleSession ''&local'' None)) ''&local'' None
       = (fst (joinChannel exampleSession ''&local'' None), Resolved ())"
  by (simp add: isChannelName_def joinChannel_def joinChannel'_def exampleSession_eq
      exampleClient_def exampleServer_def hasChannelChar_def addChannel_def send_def joinArg_def
      leaveChannel_def leaveChannel'_def startsWithHash_def orDefault_def)

subsection \<open>The rounds of a join\<close>

lemma joinChannel'_wire:
  "(snd (joinChannel' s channel key) = Waiting OnJoin \<longrightarrow>
      wire (fst (joinChannel' s channel key)) = wire s @ [JOIN (joinArg channel key)])
   \<and> (snd (joinChannel' s channel key) \<noteq> Waiting OnJoin \<longrightarrow> fst (joinChannel' s channel key) = s)"
  by (auto simp: joinChannel'_def send_def addChannel_def split: option.splits if_splits)

lemma joinTimeout_retry:
  "joinTimeout s channel a p = TimerRetry a' \<Longrightarrow> a < 5 \<and> a' = a + 1"
  by (auto simp: joinTimeout_def split: option.splits if_splits)

lemma joinRounds_wire:
  assumes env: "\<And>a s. wire (fst (env a s)) = wire s"
  shows "\<exists>k \<le> roundsLeft a.
           wire (fst (joinRounds env s channel key a)) =
             wire s @ replicate k (JOIN (joinArg channel key))"
  using env
proof (induction env s channel key a rule: joinRounds.induct)
  case (1 env s channel key attemptCount)
  define a where "a = (if attemptCount = 0 then 1 else attemptCount)"
  define r where "r = joinChannel' s channel key"
  define e where "e = env a (fst r)"
  have bound: "1 \<le> roundsLeft attemptCount"
    by (simp add: roundsLeft_def)
  show ?case
  proof (cases "snd r = Waiting OnJoin")
    case False
    then have "joinRounds env s channel key attemptCount = r"
      by (subst joinRounds.simps) (simp add: r_def Let_def)
    moreover have "fst r = s"
      using joinChannel'_wire [of s channel key] False by (simp add: r_def)
    ultimately show ?thesis
      by (intro exI [of _ 0]) simp
  next
    case True
    then have w1: "wire (fst r) = wire s @ [JOIN (joinArg channel key)]"
      using joinChannel'_wire [of s channel key] by (simp add: r_def)
    have w2: "wire (fst e) = wire s @ replicate 1 (JOIN (joinArg channel key))"
      using w1 "1.prems" [of a "fst r"] by (simp add: e_def)
    have unfold: "joinRounds env s channel key attemptCount =
        (case snd e of
          Some (Inr rm) \<Rightarrow> (fst e, Resolved rm)
        | Some (Inl err) \<Rightarrow> (fst e, Rejected err)
        | None \<Rightarrow>
            (case joinTimeout (fst e) channel a True of
               TimerNothing \<Rightarrow> (fst e, Waiting OnJoin)
             | TimerResolve rm \<Rightarrow> (fst e, Resolved rm)
             | TimerReject err \<Rightarrow> (fst e, Rejected err)
             | TimerRetry a' \<Rightarrow> joinRounds env (fst e) channel key a'))"
      using True unfolding e_def r_def a_def
      by (subst joinRounds.simps) (simp add: Let_def)
    show ?thesis
    proof (cases "\<exists>a'. snd e = None \<and> joinTimeout (fst e) channel a True = TimerRetry a'")
      case False
      then have "fst (joinRounds env s channel key attemptCount) = fst e"
        unfolding unfold by (auto split: option.splits sum.splits join_timer.splits)
      then show ?thesis
        using w2 bound by (intro exI [of _ 1]) simp
    next
      case True
      then obtain a' where n: "snd e = None"
        and t: "joinTimeout (fst e) channel a True = TimerRetry a'"
        by blast
      have eq: "joinRounds env s channel key attemptCount = joinRounds env (fst e) channel key a'"
        unfolding unfold by (simp add: n t)
      from "1.IH" [OF a_def r_def _ e_def n t "1.prems"] \<open>snd r = Waiting OnJoin\<close>
      obtain k where k: "k \<le> roundsLeft a'"
        and wk: "wire (fst (joinRounds env (fst e) channel key a')) =
                 wire (fst e) @ replicate k (JOIN (joinArg channel key))"
        by auto
      have "Suc k \<le> roundsLeft attemptCount"
        using joinTimeout_retry [OF t] k by (auto simp: roundsLeft_def a_def split: if_splits)
      moreover have "wire (fst (joinRounds env s channel key attemptCount)) =
          wire s @ replicate (Suc k) (JOIN (joinArg channel key))"
        using eq wk w2 by simp
      ultimately show ?thesis by blast
    qed
  qed
qed

text \<open>
  C2, as amended. For every \<open>JoinChannel(channel, key)\<close> that issues a network JOIN,
  the 15-second round timer decides as follows when it fires. If the raw client is
  gone, the operation is no longer pending, or the channel is no longer in
  \<open>chanList\<close>, it does nothing. Otherwise, if the raw client's channel set now
  contains the channel, the operation resolves without a second network JOIN; else
  if the attempt count has reached 5 it rejects with a "failed after multiple tries"
  error; else the attempt count is incremented and the whole join is retried. So
  one call issues at most 5 JOIN commands, whatever the upstream and other
  operations do to the session between the rounds; their own commands are kept off
  the wire here, so that those of this call can be counted.
\<close>

theorem join_round_timer_policy:
  assumes "\<And>a s. wire (fst (env a s)) = wire s"
  shows "joinTimeout s channel a isPending =
           (case unsafeClient s of
              None \<Rightarrow> TimerNothing
            | Some cli \<Rightarrow>
                if \<not> isPending \<or> channel \<notin> set (chanList s) then TimerNothing
                else if channel \<in> set (chans cli) then TimerResolve (IrcRoom channel)
                else if 5 \<le> a then
                  TimerReject (Error (''Failed to join '' @ channel @ '' after multiple tries''))
                else TimerRetry (a + 1))
       \<and> (\<forall>rm. snd (joinChannel' s channel key) = Waiting OnJoin
              \<and> snd (env 1 (fst (joinChannel' s channel key))) = None
              \<and> joinTimeout (fst (env 1 (fst (joinChannel' s channel key)))) channel 1 True
                    = TimerResolve rm \<longrightarrow>
            joinRounds env s channel key 0 =
              (fst (env 1 (fst (joinChannel' s channel key))), Resolved rm)
            \<and> wire (fst (joinRounds env s channel key 0)) =
                wire s @ [JOIN (joinArg channel key)])
       \<and> (\<exists>k \<le> 5. wire (fst (joinRounds env s channel key 0)) =
                      wire s @ replicate k (JOIN (joinArg channel key)))"
proof -
  have "roundsLeft 0 = 5" by (simp add: roundsLeft_def)
  then have bound: "\<exists>k \<le> 5. wire (fst (joinRounds env s channel key 0)) =
                      wire s @ replicate k (JOIN (joinArg channel key))"
    using joinRounds_wire [of env 0 s channel key, OF assms] by simp
  have timer: "joinTimeout s channel a isPending =
           (case unsafeClient s of
              None \<Rightarrow> TimerNothing
            | Some cli \<Rightarrow>
                if \<not> isPending \<or> channel \<notin> set (chanList s) then TimerNothing
                else if channel \<in> set (chans cli) then TimerResolve (IrcRoom channel)
                else if 5 \<le> a then
                  TimerReject (Error (''Failed to join '' @ channel @ '' after multiple tries''))
                else TimerRetry (a + 1))"
    by (auto simp: joinTimeout_def split: option.splits)
  have silent: "joinRounds env s channel key 0 =
              (fst (env 1 (fst (joinChannel' s channel key))), Resolved rm)
            \<and> wire (fst (joinRounds env s channel key 0)) =
                wire s @ [JOIN (joinArg channel key)]"
    if "snd (joinChannel' s channel key) = Waiting OnJoin"
      and "snd (env 1 (fst (joinChannel' s channel key))) = None"
      and "joinTimeout (fst (env 1 (fst (joinChannel' s channel key)))) channel 1 True
             = TimerResolve rm" for rm
  proof -
    have "joinRounds env s channel key 0 =
        (fst (env 1 (fst (joinChannel' s channel key))), Resolved rm)"
      using that by (subst joinRounds.simps) (simp add: Let_def)
    moreover have "wire (fst (env 1 (fst (joinChannel' s channel key)))) =
        wire s @ [JOIN (joinArg channel key)]"
      using assms [of 1 "fst (joinChannel' s channel key)"] joinChannel'_wire [of s channel key]
        that(1) by simp
    ultimately show ?thesis by simp
  qed
  show ?thesis
    using timer silent bound by blast
qed

text \<open>
  Five rounds in which nothing happens: five JOIN commands, then the rejection.
\<close>

theorem join_round_timer_policy_witness:
  "wire (fst (joinRounds (\<lambda>a s. (s, None)) exampleSession ''#room'' None 0)) =
     [JOIN ''#room'', JOIN ''#room'', JOIN ''#room'', JOIN ''#room'', JOIN ''#room'']
   \<and> snd (joinRounds (\<lambda>a s. (s, None)) exampleSession ''#room'' None 0) =
       Rejected (Error ''Failed to join #room after multiple tries'')"
proof -
  have h: "\<And>a s. wire (fst ((\<lambda>a s. (s, None :: (error + room) option)) a s)) = wire s"
    by simp
  from join_round_timer_policy
    [of "\<lambda>a s. (s, None)", OF h, of exampleSession "''#room''" 1 True None]
  show ?thesis
    by (simp add: joinRounds.simps joinChannel'_def joinTimeout_def exampleSession_eq
        exampleServer_def exampleClient_def hasChannelChar_def addChannel_def send_def joinArg_def)
qed

text \<open>
  The claim as stated fails where the code's guards apply. The session joins
  \<open>#room\<close> and leaves it again before the timer fires, while the upstream reports
  the channel as joined: the pending operation is not resolved. And on a killed
  session a pending operation in its fifth round is not rejected.
\<close>

theorem join_round_timer_guard_counterexample:
  "joinTimeout
     ((fst (leaveChannel (fst (joinChannel exampleSession ''#room'' None)) ''#room'' None))
        \<lparr>unsafeClient := Some (exampleClient\<lparr>chans := [''#room'']\<rparr>)\<rparr>)
     ''#room'' 1 True = TimerNothing
   \<and> joinTimeout (fst (kill (fst (joinChannel exampleSession ''#room'' None)) None))
       ''#room'' 5 True = TimerNothing"
  by (simp add: joinTimeout_def joinChannel_def joinChannel'_def leaveChannel_def
      leaveChannel'_def kill_def disconnect_def inst_disconnect_def orDefault_def
      exampleSession_eq exampleServer_def exampleClient_def hasChannelChar_def addChannel_def
      removeChannel_def inChannel_def startsWithHash_def send_def joinArg_def)

subsection \<open>The pending nick change\<close>











subsection \<open>The idle timer\<close>

lemma keepAlive_handle:
  "server (keepAlive s now) = server s \<and>
   (idleTimeoutHandle (keepAlive s now) = idleTimeoutHandle s \<or>
    idleTimeoutHandle (keepAlive s now) = Some (getIdleTimeout (server s)))"
  by (simp add: keepAlive_def Let_def)

lemma joinChannel'_handle:
  "server (fst (joinChannel' s channel key)) = server s \<and>
   idleTimeoutHandle (fst (joinChannel' s channel key)) = idleTimeoutHandle s"
  by (simp add: joinChannel'_def send_def addChannel_def split: option.splits)

lemma disconnect_handle:
  "server (fst (disconnect s reason)) = server s \<and>
   idleTimeoutHandle (fst (disconnect s reason)) = idleTimeoutHandle s"
  by (simp add: disconnect_def Let_def split: option.splits)

lemma handleOk_same:
  "handleOk s \<Longrightarrow> server s' = server s \<Longrightarrow>
   idleTimeoutHandle s' = idleTimeoutHandle s \<or> idleTimeoutHandle s' = None
     \<or> idleTimeoutHandle s' = Some (getIdleTimeout (server s)) \<Longrightarrow> handleOk s'"
  by (auto simp: handleOk_def split: option.splits)

lemma sendMessage_handle:
  "server (fst (sendMessage s channel m txt x now)) = server s \<and>
   idleTimeoutHandle (fst (sendMessage s channel m txt x now)) = idleTimeoutHandle s"
proof (cases "joinChannel' s channel None")
  case (Pair s1 r)
  then have "server s1 = server s \<and> idleTimeoutHandle s1 = idleTimeoutHandle s"
    using joinChannel'_handle [of s channel None] by simp
  then show ?thesis
    using Pair by (cases r) (simp_all add: sendMessage_def send_def split: option.splits)
qed

lemma setTopic_handle:
  "server (fst (setTopic s channel txt)) = server s \<and>
   idleTimeoutHandle (fst (setTopic s channel txt)) = idleTimeoutHandle s"
proof (cases "joinChannel' s channel None")
  case (Pair s1 r)
  then have "server s1 = server s \<and> idleTimeoutHandle s1 = idleTimeoutHandle s"
    using joinChannel'_handle [of s channel None] by simp
  then show ?thesis
    using Pair by (cases r) (simp_all add: setTopic_def send_def split: option.splits)
qed

lemma sendAction_handle:
  "server (fst (sendAction s channel a now)) = server s \<and>
   (idleTimeoutHandle (fst (sendAction s channel a now)) = idleTimeoutHandle s \<or>
    idleTimeoutHandle (fst (sendAction s channel a now)) = Some (getIdleTimeout (server s)))"
  using keepAlive_handle [of s now]
  by (simp add: sendAction_def Let_def sendMessage_handle setTopic_handle)

lemma getNicks_handle:
  "server (fst (getNicks s channel)) = server s \<and>
   idleTimeoutHandle (fst (getNicks s channel)) = idleTimeoutHandle s"
  by (simp add: getNicks_def send_def split: option.splits)

lemma joinThenNames_handle:
  "server (fst (joinThenNames s channel key)) = server s \<and>
   idleTimeoutHandle (fst (joinThenNames s channel key)) = idleTimeoutHandle s"
proof (cases "joinChannel' s channel key")
  case (Pair s1 r)
  then have "server s1 = server s \<and> idleTimeoutHandle s1 = idleTimeoutHandle s"
    using joinChannel'_handle [of s channel key] by simp
  then show ?thesis
    using Pair getNicks_handle [of s1 channel]
    by (cases r) (auto simp: joinThenNames_def split: prod.splits)
qed

lemma getOperators_handle:
  "server (fst (getOperators s channel opts)) = server s \<and>
   idleTimeoutHandle (fst (getOperators s channel opts)) = idleTimeoutHandle s"
  by (simp add: getOperators_def joinThenNames_handle split: option.splits)

lemma leaveChannel_handle:
  "server (fst (leaveChannel' s channel reason)) = server s \<and>
   idleTimeoutHandle (fst (leaveChannel' s channel reason)) = idleTimeoutHandle s"
  by (simp add: leaveChannel'_def removeChannel_def send_def Let_def split: option.splits)

lemma changeNick_handle:
  "server (fst (changeNick s n b)) = server s \<and>
   idleTimeoutHandle (fst (changeNick s n b)) = idleTimeoutHandle s"
  by (simp add: changeNick_def send_def split: option.splits sum.splits)

lemma kick_handle:
  "server (fst (kick s n c r)) = server s \<and>
   idleTimeoutHandle (fst (kick s n c r)) = idleTimeoutHandle s"
  by (simp add: kick_def send_def Let_def split: option.splits)

lemma whois_handle:
  "server (fst (whois s n)) = server s \<and>
   idleTimeoutHandle (fst (whois s n)) = idleTimeoutHandle s"
  by (simp add: whois_def send_def split: option.splits)

lemma perform_handle:
  "server (perform s op) = server s \<and>
   (idleTimeoutHandle (perform s op) = idleTimeoutHandle s \<or>
    idleTimeoutHandle (perform s op) = Some (getIdleTimeout (server s)))"
proof (cases op)
  case (SendAction channel a now)
  then show ?thesis using sendAction_handle [of s channel a now] by simp
qed (simp_all add: joinChannel_def joinChannel'_handle leaveChannel_def leaveChannel_handle
      changeNick_handle kick_handle whois_handle getNicks_handle getOperators_handle
      disconnect_handle)

lemma reachable_handleOk: "reachable s \<Longrightarrow> handleOk s"
proof (induction rule: reachable.induct)
  case (created srv desired bot_flag now)
  then show ?case by (simp add: handleOk_def BridgedClient_def)
next
  case (connect_ok s cli now)
  then show ?case
    by (auto simp: handleOk_def connected_def keepAlive_def send_def Let_def split: option.splits)
next
  case (connect_failed s)
  then show ?case by (simp add: handleOk_def connectFailed_def split: option.splits)
next
  case (operation s op)
  then show ?case using perform_handle [of s op] handleOk_same by blast
next
  case (kill s reason)
  then show ?case
    using disconnect_handle [of "s\<lparr>unsafeClient := None\<rparr>"]
    by (auto simp: handleOk_def kill_def split: option.splits)
next
  case (idle_timer s)
  then show ?case
    using disconnect_handle [of "s\<lparr>idleTimeoutHandle := None\<rparr>"]
    by (auto simp: handleOk_def idleTimerExpires_def idleCallback_def split: option.splits)
next
  case (disconnect_report s reason)
  then show ?case by (simp add: handleOk_def onDisconnect_def)
next
  case (upstream s cli cli')
  then show ?case by (simp add: handleOk_def split: option.splits)
next
  case (renamed s n)
  then show ?case by (simp add: handleOk_def split: option.splits)
next
  case (sent s cli c)
  then show ?case by (simp add: handleOk_def send_def split: option.splits)
next
  case (cached s m)
  then show ?case by (simp add: handleOk_def split: option.splits)
qed

text \<open>
  C8. Whenever the armed idle timer expires: if the server's membership-mirror
  policy for phase "initial" is true, nothing happens; else if the session is the
  bot, nothing happens; otherwise \<open>disconnect\<close> is called once with the reason
  "Idle timeout reached: Ns", where N is the configured idle timeout in seconds
  (the timeout the timer captured when it was armed). On a live connection that
  call hands exactly this one reason to the connection instance.
\<close>

theorem idle_timer_expiry:
  assumes "reachable s" and "idleTimeoutHandle s = Some t"
  shows "t = getIdleTimeout (server s)
   \<and> idleTimerExpires s =
     (if shouldSyncMembershipToIrc (server s) ''initial'' then s\<lparr>idleTimeoutHandle := None\<rparr>
      else if isBot s then s\<lparr>idleTimeoutHandle := None\<rparr>
      else fst (disconnect (s\<lparr>idleTimeoutHandle := None\<rparr>)
                  (''Idle timeout reached: '' @ string_of_int (getIdleTimeout (server s)) @ ''s'')))
   \<and> (\<forall>i. \<not> shouldSyncMembershipToIrc (server s) ''initial'' \<and> \<not> isBot s
            \<and> inst s = Some i \<and> \<not> dead i \<longrightarrow>
        inst (idleTimerExpires s) =
          Some (i\<lparr>dead := True,
                  disconnectReasons := disconnectReasons i @
                    [''Idle timeout reached: '' @ string_of_int (getIdleTimeout (server s)) @
                     ''s'']\<rparr>))"
proof -
  have t: "t = getIdleTimeout (server s)"
    using reachable_handleOk [OF assms(1)] assms(2) by (simp add: handleOk_def)
  then show ?thesis
    using assms(2)
    by (simp add: idleTimerExpires_def idleCallback_def disconnect_def inst_disconnect_def Let_def)
qed

theorem idle_timer_expiry_witness:
  "reachable exampleSession \<and> idleTimeoutHandle exampleSession = Some 300 \<and>
   inst (idleTimerExpires exampleSession) =
     Some \<lparr>dead = True, disconnectReasons = [''Idle timeout reached: 300s'']\<rparr>"
proof -
  have h: "idleTimeoutHandle exampleSession = Some 300"
    by (simp add: exampleSession_eq)
  from idle_timer_expiry [OF reachable_exampleSession h] h reachable_exampleSession
  show ?thesis
    by (simp add: exampleSession_eq exampleServer_def string_of_int_300 disconnect_def
        inst_disconnect_def)
qed

subsection \<open>After a kill\<close>






















subsection \<open>Operators\<close>

text \<open>
  C10. For every call \<open>getOperators(channel, opts)\<close> where \<open>opts\<close> is \<open>undefined\<close> or
  \<open>null\<close>, the call throws a \<open>TypeError\<close> synchronously, before any validation
  message is produced, and the session is left as it was: no join, no names request
  and nothing on the wire.
\<close>

theorem getOperators_missing_opts:
  "getOperators s channel None = (s, Thrown TypeError)
   \<and> wire (fst (getOperators s channel None)) = wire s
   \<and> chanList (fst (getOperators s channel None)) = chanList s
   \<and> snd (getOperators s channel None) \<noteq> Thrown (Error ''key must be a string'')
   \<and> snd (getOperators s channel None) \<noteq>
       Thrown (Error ''cacheDurationMs must be a positive integer'')"
  by (simp add: getOperators_def)

end
